theory Spec2Isabelle
  imports Main
begin

section \<open>JavaScript values\<close>

text \<open>
  Strings are character lists. A value that may be \<^verbatim>\<open>null\<close> or \<^verbatim>\<open>undefined\<close> is an
  option, \<open>None\<close> standing for both: the two modules never tell them apart (they test
  truthiness, chain with \<^verbatim>\<open>?.\<close>, or call a method, which throws on either).
\<close>

definition truthy :: "string option \<Rightarrow> bool" where
  \<comment> \<open>truthiness of a string-or-nullish value: the empty string is falsy\<close>
  "truthy v = (case v of None \<Rightarrow> False | Some s \<Rightarrow> s \<noteq> [])"

definition js_or :: "string option \<Rightarrow> string option \<Rightarrow> string option" where
  \<comment> \<open>\<^verbatim>\<open>a || b\<close>\<close>
  "js_or a b = (if truthy a then a else b)"

definition startsWith :: "string \<Rightarrow> string \<Rightarrow> bool" where
  \<comment> \<open>\<^verbatim>\<open>s.startsWith(p)\<close>\<close>
  "startsWith s p = (take (length p) s = p)"

fun indexOf :: "string \<Rightarrow> string \<Rightarrow> nat option" where
  \<comment> \<open>\<^verbatim>\<open>s.indexOf(pat)\<close>, with \<open>None\<close> for -1\<close>
  "indexOf [] pat = (if pat = [] then Some 0 else None)"
| "indexOf (c # cs) pat =
     (if startsWith (c # cs) pat then Some 0 else map_option Suc (indexOf cs pat))"

definition replace :: "string \<Rightarrow> string \<Rightarrow> string \<Rightarrow> string" where
  \<comment> \<open>\<^verbatim>\<open>s.replace(pat, rep)\<close> for a string pattern and a replacement without \<^verbatim>\<open>$\<close>
      (both replacements in the source are such): the text before the first match,
      the replacement, the text after the match; \<open>s\<close> itself when nothing matches\<close>
  "replace s pat rep =
     (case indexOf s pat of
        None \<Rightarrow> s
      | Some pos \<Rightarrow> take pos s @ rep @ drop (pos + length pat) s)"

datatype js_error =
    FetchError string
  | TypeError
  | UnsupportedVersion int


section \<open>The task poller: \<^verbatim>\<open>useTaskPolling\<close>\<close>

subsection \<open>Data\<close>

record task_request =
  selected_repository :: "string option"
  selected_branch :: "string option"
  git_provider :: "string option"

record start_task =
  status :: string
  detail :: "string option"
  app_conversation_id :: "string option"
  agent_server_url :: "string option"
  sandbox_id :: "string option"
  request :: "task_request option"

text \<open>The record the pre-cache effect writes, and the wrapper component reads back.\<close>

record app_conversation =
  id' :: string
  conversation_url :: "string option"
  session_api_key :: "string option"
  sandbox_id' :: "string option"

datatype query_key =
    StartTaskKey "string option"
  | SubConversationsKey "string list"

datatype side_effect =
    SetQueryData query_key "app_conversation list"
  | Navigate string bool

subsection \<open>The query\<close>

datatype refetch = NoRefetch | RefetchEvery nat

definition refetchInterval :: "start_task option \<Rightarrow> refetch" where
  \<comment> \<open>\<^verbatim>\<open>false\<close> is \<open>NoRefetch\<close>; the argument is \<^verbatim>\<open>query.state.data\<close>\<close>
  "refetchInterval task =
     (case task of
        None \<Rightarrow> NoRefetch
      | Some t \<Rightarrow>
          if status t = ''READY'' \<or> status t = ''ERROR'' then NoRefetch
          else RefetchEvery 3000)"

datatype retry_policy = RetryNever | RetryTimes nat | RetryAlways

text \<open>
  One call of \<^verbatim>\<open>V1ConversationService.getStartTask\<close> either fails (the rejected
  promise, \<open>Inl\<close>) or yields a task or \<^verbatim>\<open>null\<close>. A \<open>service\<close> is what the backend does
  at one call, as a function of the task identifier.
\<close>

type_synonym fetch_result = "js_error + start_task option"

type_synonym service = "string \<Rightarrow> fetch_result"

definition queryFn :: "string option \<Rightarrow> service \<Rightarrow> fetch_result" where
  \<comment> \<open>the second argument is \<^verbatim>\<open>V1ConversationService.getStartTask\<close>\<close>
  "queryFn taskId getStartTask =
     (case taskId of
        None \<Rightarrow> Inr None
      | Some tid \<Rightarrow> if tid = [] then Inr None else getStartTask tid)"

record query_options =
  queryKey :: query_key
  queryFn' :: "service \<Rightarrow> fetch_result"
  enabled :: bool
  refetchInterval' :: "start_task option \<Rightarrow> refetch"
  retry :: retry_policy

definition taskQuery_options :: "string option \<Rightarrow> query_options" where
  "taskQuery_options taskId =
     \<lparr> queryKey = StartTaskKey taskId,
       queryFn' = queryFn taskId,
       enabled = truthy taskId,
       refetchInterval' = refetchInterval,
       retry = RetryNever \<rparr>"

record query_result =
  data :: "start_task option"
  error :: "js_error option"
  isLoading :: bool

text \<open>
  The contract of the data-fetching library for these options, one call of the query
  function at a time; the list holds what the backend does at the successive calls.
  A disabled query never calls its function. A call that succeeds settles the query with
  the new data and no error. A call that fails is repeated at once while the retry policy
  allows it (\<^verbatim>\<open>retry: false\<close> never, \<^verbatim>\<open>retry: n\<close> up to \<open>n\<close> times,
  \<^verbatim>\<open>retry: true\<close> always); otherwise it settles the query with the error and the data
  it had. After the query has settled, the refetch interval is computed from its data:
  \<^verbatim>\<open>false\<close> ends the polling, a number schedules the next fetch. Every call leaves one
  event: \<open>Retried\<close> when the failed call is retried, \<open>Settled\<close> with the result the hook
  then sees.
\<close>

fun may_retry :: "retry_policy \<Rightarrow> nat \<Rightarrow> bool" where
  "may_retry RetryNever failureCount = False"
| "may_retry (RetryTimes n) failureCount = (failureCount < n)"
| "may_retry RetryAlways failureCount = True"

datatype query_event = Retried js_error | Settled query_result

fun polls :: "query_options \<Rightarrow> query_result \<Rightarrow> nat \<Rightarrow> service list \<Rightarrow> query_event list" where
  "polls opts q failureCount [] = []"
| "polls opts q failureCount (g # gs) =
     (case queryFn' opts g of
        Inr v \<Rightarrow>
          Settled \<lparr> data = v, error = None, isLoading = False \<rparr>
          # (if refetchInterval' opts v = NoRefetch then []
             else polls opts \<lparr> data = v, error = None, isLoading = False \<rparr> 0 gs)
      | Inl e \<Rightarrow>
          if may_retry (retry opts) failureCount
          then Retried e # polls opts q (Suc failureCount) gs
          else Settled \<lparr> data = data q, error = Some e, isLoading = False \<rparr>
               # (if refetchInterval' opts (data q) = NoRefetch then []
                  else polls opts \<lparr> data = data q, error = Some e, isLoading = False \<rparr> 0 gs))"

definition run_query :: "query_options \<Rightarrow> service list \<Rightarrow> query_event list" where
  "run_query opts gs =
     (if enabled opts then polls opts \<lparr> data = None, error = None, isLoading = True \<rparr> 0 gs
      else [])"

subsection \<open>The two effects\<close>

definition preCacheEffect :: "start_task option \<Rightarrow> side_effect list" where
  "preCacheEffect task =
     (case task of
        None \<Rightarrow> []
      | Some t \<Rightarrow>
          (case app_conversation_id t of
             None \<Rightarrow> []
           | Some cid \<Rightarrow>
               if status t = ''READY'' \<and> cid \<noteq> [] \<and> truthy (agent_server_url t)
               then [SetQueryData (SubConversationsKey [cid])
                       [\<lparr> id' = cid,
                          conversation_url = agent_server_url t,
                          session_api_key = None,
                          sandbox_id' = sandbox_id t \<rparr>]]
               else []))"

definition navigateEffect :: "start_task option \<Rightarrow> side_effect list" where
  \<comment> \<open>\<open>Navigate path True\<close> is \<^verbatim>\<open>navigate(path, { replace: true })\<close>\<close>
  "navigateEffect task =
     (case task of
        None \<Rightarrow> []
      | Some t \<Rightarrow>
          (case app_conversation_id t of
             None \<Rightarrow> []
           | Some cid \<Rightarrow>
               if status t = ''READY'' \<and> cid \<noteq> []
               then [Navigate (''/conversations/'' @ cid) True]
               else []))"

subsection \<open>One render of the hook\<close>

text \<open>
  What the hooks called by \<^verbatim>\<open>useTaskPolling\<close> hand back on one render. Objects and
  functions are compared by identity in a dependency array, so the data object, the
  navigate function and the query client come with an identity (a number).
\<close>

record render_input =
  useConversationId :: string
  useNavigate :: nat
  useQueryClient :: nat
  useQuery :: query_result
  data_ref :: nat

text \<open>
  The dependency arrays \<^verbatim>\<open>[taskQuery.data, queryClient]\<close> and
  \<^verbatim>\<open>[taskQuery.data, navigate]\<close>: the identity of the data (\<open>None\<close> when there is no
  object) and the identity of the second entry. The framework keeps the arrays of the
  previous render (none before the first) and runs an effect after a render when its
  array differs from the kept one.
\<close>

type_synonym deps = "nat option \<times> nat"

record hook_state =
  precache_deps :: "deps option"
  navigate_deps :: "deps option"

definition mount :: hook_state where
  "mount = \<lparr> precache_deps = None, navigate_deps = None \<rparr>"

definition useEffect :: "deps option \<Rightarrow> deps \<Rightarrow> side_effect list \<Rightarrow> side_effect list" where
  "useEffect prev ds body = (if prev = Some ds then [] else body)"

record repository_info =
  selectedRepository :: "string option"
  selectedBranch :: "string option"
  gitProvider :: "string option"

record hook_return =
  isTask :: bool
  taskId :: "string option"
  conversationId :: "string option"
  task :: "start_task option"
  taskStatus :: "string option"
  taskDetail :: "string option"
  taskError :: "js_error option"
  isLoadingTask :: bool
  repositoryInfo :: repository_info

text \<open>
  One render yields the options handed to the query, the dependency arrays kept for the
  next render, the side effects performed after the render, and the returned object.
\<close>

record render_output =
  queried :: query_options
  next_state :: hook_state
  effects :: "side_effect list"
  returned :: hook_return

definition data_dep :: "render_input \<Rightarrow> nat option" where
  "data_dep r = (case data (useQuery r) of None \<Rightarrow> None | Some t \<Rightarrow> Some (data_ref r))"

definition request_field :: "(task_request \<Rightarrow> string option) \<Rightarrow> start_task option \<Rightarrow> string option" where
  \<comment> \<open>\<^verbatim>\<open>taskQuery.data?.request?.f\<close>\<close>
  "request_field f d =
     (case d of
        None \<Rightarrow> None
      | Some t \<Rightarrow> (case request t of None \<Rightarrow> None | Some q \<Rightarrow> f q))"

definition useTaskPolling :: "hook_state \<Rightarrow> render_input \<Rightarrow> render_output" where
  "useTaskPolling st r =
     (let cid = useConversationId r;
          is_task = startsWith cid ''task-'';
          task_id = (if is_task then Some (replace cid ''task-'' []) else None);
          taskQuery = useQuery r
      in \<lparr> queried = taskQuery_options task_id,
           next_state =
             \<lparr> precache_deps = Some (data_dep r, useQueryClient r),
               navigate_deps = Some (data_dep r, useNavigate r) \<rparr>,
           effects =
             useEffect (precache_deps st) (data_dep r, useQueryClient r)
               (preCacheEffect (data taskQuery))
             @ useEffect (navigate_deps st) (data_dep r, useNavigate r)
                 (navigateEffect (data taskQuery)),
           returned =
             \<lparr> isTask = is_task,
               taskId = task_id,
               conversationId = (if is_task then None else Some cid),
               task = data taskQuery,
               taskStatus = map_option status (data taskQuery),
               taskDetail = (case data taskQuery of None \<Rightarrow> None | Some t \<Rightarrow> detail t),
               taskError = error taskQuery,
               isLoadingTask = isLoading taskQuery,
               repositoryInfo =
                 \<lparr> selectedRepository = request_field selected_repository (data taskQuery),
                   selectedBranch = request_field selected_branch (data taskQuery),
                   gitProvider = request_field git_provider (data taskQuery) \<rparr> \<rparr> \<rparr>)"

text \<open>A sequence of renders of one mounted hook, and the side effects it performs in order.\<close>

fun renders :: "hook_state \<Rightarrow> render_input list \<Rightarrow> side_effect list" where
  "renders st [] = []"
| "renders st (r # rs) =
     effects (useTaskPolling st r) @ renders (next_state (useTaskPolling st r)) rs"

fun is_navigation :: "side_effect \<Rightarrow> bool" where
  "is_navigation (Navigate path rep) = True"
| "is_navigation (SetQueryData k v) = False"

definition navigations :: "side_effect list \<Rightarrow> side_effect list" where
  "navigations es = filter is_navigation es"

definition cache_writes :: "side_effect list \<Rightarrow> side_effect list" where
  "cache_writes es = filter (\<lambda>e. \<not> is_navigation e) es"

fun state_after :: "hook_state \<Rightarrow> render_input list \<Rightarrow> hook_state" where
  "state_after st [] = st"
| "state_after st (r # rs) = state_after (next_state (useTaskPolling st r)) rs"

definition effects_at :: "render_input list \<Rightarrow> nat \<Rightarrow> side_effect list" where
  \<comment> \<open>the side effects performed after render \<open>i\<close> of a run that starts at the mount\<close>
  "effects_at rs i = effects (useTaskPolling (state_after mount (take i rs)) (rs ! i))"

definition ready_with_conversation :: "render_input \<Rightarrow> bool" where
  \<comment> \<open>the data of this render is a task in the ready state with a conversation identifier\<close>
  "ready_with_conversation r =
     (case data (useQuery r) of
        None \<Rightarrow> False
      | Some t \<Rightarrow> status t = ''READY'' \<and> truthy (app_conversation_id t))"


section \<open>The transport selector: \<^verbatim>\<open>WebSocketProviderWrapper\<close>\<close>

record conversation =
  url :: "string option"
  session_api_key' :: "string option"
  sub_conversation_ids :: "string list option"

record v1_provider_props =
  conversationId' :: string
  conversationUrl :: string
  sessionApiKey :: "string option"
  subConversationIds :: "string list option"
  subConversations :: "app_conversation list option"

datatype element =
    WsClientProvider string
  | ConversationWebSocketProvider v1_provider_props

definition v1ConversationUrl ::
  "conversation option \<Rightarrow> app_conversation option list option \<Rightarrow> string \<Rightarrow> string option"
where
  "v1ConversationUrl conv subs cid =
     (let filteredSubConversations = map_option (List.map_filter (\<lambda>sc. sc)) subs;
          v1AppConversation =
            (case filteredSubConversations of
               None \<Rightarrow> None
             | Some scs \<Rightarrow> find (\<lambda>c. id' c = cid) scs)
      in js_or (case v1AppConversation of None \<Rightarrow> None | Some c \<Rightarrow> conversation_url c)
               (case conv of None \<Rightarrow> None | Some c \<Rightarrow> url c))"

definition v1SessionApiKey ::
  "conversation option \<Rightarrow> app_conversation option list option \<Rightarrow> string \<Rightarrow> string option"
where
  "v1SessionApiKey conv subs cid =
     (let filteredSubConversations = map_option (List.map_filter (\<lambda>sc. sc)) subs;
          v1AppConversation =
            (case filteredSubConversations of
               None \<Rightarrow> None
             | Some scs \<Rightarrow> find (\<lambda>c. id' c = cid) scs)
      in js_or (case v1AppConversation of None \<Rightarrow> None | Some c \<Rightarrow> session_api_key c)
               (case conv of None \<Rightarrow> None | Some c \<Rightarrow> session_api_key' c))"

text \<open>
  The component: \<open>conv\<close> is what \<^verbatim>\<open>useActiveConversation\<close> returned, \<open>subs\<close> what
  \<^verbatim>\<open>useSubConversations\<close> returned. A thrown error is \<open>Inl\<close>, the element rendered
  is \<open>Inr\<close>. The children are handed on untouched and left out. Calling
  \<^verbatim>\<open>.replace\<close> on a missing URL throws a \<^verbatim>\<open>TypeError\<close>.
\<close>

definition WebSocketProviderWrapper ::
  "conversation option \<Rightarrow> app_conversation option list option \<Rightarrow> string \<Rightarrow> int
     \<Rightarrow> js_error + element"
where
  "WebSocketProviderWrapper conv subs cid version =
     (if version = 0 then Inr (WsClientProvider cid)
      else if version = 1 then
        (case v1ConversationUrl conv subs cid of
           None \<Rightarrow> Inl TypeError
         | Some u \<Rightarrow>
             Inr (ConversationWebSocketProvider
               \<lparr> conversationId' = cid,
                 conversationUrl = replace u ''localhost'' ''sheepintry.com'',
                 sessionApiKey = v1SessionApiKey conv subs cid,
                 subConversationIds =
                   (case conv of None \<Rightarrow> None | Some c \<Rightarrow> sub_conversation_ids c),
                 subConversations = map_option (List.map_filter (\<lambda>sc. sc)) subs \<rparr>))
      else Inl (UnsupportedVersion version))"


section \<open>Sample inputs\<close>

definition example_task :: "string \<Rightarrow> string option \<Rightarrow> string option \<Rightarrow> start_task" where
  "example_task st cid u =
     \<lparr> status = st, detail = None, app_conversation_id = cid, agent_server_url = u,
       sandbox_id = Some ''sb1'', request = None \<rparr>"

definition example_render :: "string \<Rightarrow> start_task option \<Rightarrow> nat \<Rightarrow> render_input" where
  "example_render cid d ref =
     \<lparr> useConversationId = cid, useNavigate = 0, useQueryClient = 0,
       useQuery = \<lparr> data = d, error = None, isLoading = False \<rparr>, data_ref = ref \<rparr>"

definition example_service :: "fetch_result \<Rightarrow> service" where
  "example_service res = (\<lambda>tid. res)"

definition example_conversation :: "string option \<Rightarrow> conversation" where
  "example_conversation u =
     \<lparr> url = u, session_api_key' = Some ''key-0'', sub_conversation_ids = Some [''c1''] \<rparr>"

definition example_sub :: "string \<Rightarrow> string option \<Rightarrow> app_conversation" where
  "example_sub i u =
     \<lparr> id' = i, conversation_url = u, session_api_key = None, sandbox_id' = None \<rparr>"


definition example_ready_task :: start_task where
  "example_ready_task = example_task ''READY'' (Some ''c1'') (Some ''http://localhost:8000'')"

definition example_run :: "render_input list" where
  "example_run =
     [example_render ''task-42'' None 0,
      example_render ''task-42'' (Some (example_task ''WORKING'' None None)) 1,
      example_render ''task-42'' (Some example_ready_task) 2,
      example_render ''task-42'' (Some example_ready_task) 2,
      (example_render ''task-42'' (Some example_ready_task) 2) \<lparr> useNavigate := 1 \<rparr>]"


definition example_calls :: "service list" where
  "example_calls =
     [example_service (Inr (Some (example_task ''WORKING'' None None))),
      example_service (Inl (FetchError ''503'')),
      example_service (Inr (Some example_ready_task)),
      example_service (Inr (Some example_ready_task))]"

section \<open>Strings\<close>

lemma startsWith_append: "startsWith (p @ rest) p"
  by (simp add: startsWith_def)

lemma startsWith_iff: "startsWith s p = (\<exists>rest. s = p @ rest)"
proof
  assume "startsWith s p"
  then have "s = p @ drop (length p) s"
    unfolding startsWith_def by (metis append_take_drop_id)
  then show "\<exists>rest. s = p @ rest" ..
next
  assume "\<exists>rest. s = p @ rest"
  then show "startsWith s p" by (auto simp: startsWith_def)
qed

lemma indexOf_prefix: "startsWith s p \<Longrightarrow> indexOf s p = Some 0"
  by (cases s) (simp_all add: startsWith_def)

lemma replace_prefix: "replace (p @ rest) p rep = rep @ rest"
  by (simp add: replace_def indexOf_prefix startsWith_append)

lemma indexOf_occurs:
  "indexOf s pat = Some i \<Longrightarrow> i \<le> length s \<and> (\<exists>post. s = take i s @ pat @ post)"
proof (induction s arbitrary: i)
  case Nil
  then show ?case by (simp split: if_splits)
next
  case (Cons c cs)
  show ?case
  proof (cases "startsWith (c # cs) pat")
    case True
    then have "i = 0" using Cons.prems by simp
    moreover from True obtain rest where "c # cs = pat @ rest"
      unfolding startsWith_iff ..
    ultimately show ?thesis by auto
  next
    case False
    then obtain j where j: "indexOf cs pat = Some j" and i: "i = Suc j"
      using Cons.prems by auto
    from Cons.IH [OF j] obtain post where "j \<le> length cs" and "cs = take j cs @ pat @ post"
      by blast
    then show ?thesis using i by auto
  qed
qed

lemma indexOf_finds: "\<exists>i\<le>length pre. indexOf (pre @ pat @ post) pat = Some i"
proof (induction pre)
  case Nil
  then show ?case by (simp add: indexOf_prefix startsWith_append)
next
  case (Cons c pre)
  then obtain i where "i \<le> length pre" and "indexOf (pre @ pat @ post) pat = Some i"
    by blast
  then show ?case by (cases "startsWith (c # pre @ pat @ post) pat") auto
qed

lemma indexOf_first:
  assumes "s = pre @ pat @ post"
    and "\<forall>pre' post'. s = pre' @ pat @ post' \<longrightarrow> length pre \<le> length pre'"
  shows "indexOf s pat = Some (length pre)"
proof -
  from indexOf_finds [of pre pat post] obtain i
    where le: "i \<le> length pre" and i: "indexOf s pat = Some i"
    using assms(1) by blast
  from indexOf_occurs [OF i] obtain post' where "i \<le> length s" and "s = take i s @ pat @ post'"
    by blast
  then have "length pre \<le> i"
    using assms(2) by (metis length_take min.absorb2)
  with le i show ?thesis by simp
qed

lemma indexOf_absent:
  assumes "\<forall>pre post. s \<noteq> pre @ pat @ post"
  shows "indexOf s pat = None"
proof (cases "indexOf s pat")
  case None
  then show ?thesis .
next
  case (Some i)
  from indexOf_occurs [OF Some] assms show ?thesis by blast
qed

lemma indexOf_least:
  "indexOf s pat = Some i \<Longrightarrow> s = pre @ pat @ post \<Longrightarrow> i \<le> length pre"
  using indexOf_finds [of pre pat post] by auto

lemma indexOf_None_absent: "indexOf s pat = None \<Longrightarrow> s \<noteq> pre @ pat @ post"
  using indexOf_finds [of pre pat post] by auto

lemma replace_first:
  assumes "s = pre @ pat @ post"
    and "\<forall>pre' post'. s = pre' @ pat @ post' \<longrightarrow> length pre \<le> length pre'"
  shows "replace s pat rep = pre @ rep @ post"
  using indexOf_first [OF assms] assms(1) by (simp add: replace_def)

lemma replace_absent:
  "\<forall>pre post. s \<noteq> pre @ pat @ post \<Longrightarrow> replace s pat rep = s"
  by (simp add: replace_def indexOf_absent)


section \<open>The identifiers returned by the hook\<close>

lemma returned_taskId:
  "taskId (returned (useTaskPolling st r)) =
     (if startsWith (useConversationId r) ''task-''
      then Some (replace (useConversationId r) ''task-'' []) else None)"
  by (simp add: useTaskPolling_def Let_def)

lemma returned_conversationId:
  "conversationId (returned (useTaskPolling st r)) =
     (if startsWith (useConversationId r) ''task-'' then None else Some (useConversationId r))"
  by (simp add: useTaskPolling_def Let_def)

text \<open>
  Claim C4. When the route parameter is \<^verbatim>\<open>task-\<close> followed by some text, the task
  identifier the hook returns is exactly that text, whatever it contains (further
  occurrences of \<^verbatim>\<open>task-\<close> included: only the leading one is removed). When the
  parameter does not start with \<^verbatim>\<open>task-\<close>, the task identifier is null.
\<close>

theorem taskId_is_remainder:
  "(useConversationId r = ''task-'' @ rest \<longrightarrow>
      taskId (returned (useTaskPolling st r)) = Some rest)
   \<and> ((\<forall>rest'. useConversationId r \<noteq> ''task-'' @ rest') \<longrightarrow>
      taskId (returned (useTaskPolling st r)) = None)"
proof (intro conjI impI)
  assume "useConversationId r = ''task-'' @ rest"
  then show "taskId (returned (useTaskPolling st r)) = Some rest"
    using replace_prefix [of "''task-''" rest "[]"]
    by (simp add: returned_taskId startsWith_iff)
next
  assume "\<forall>rest'. useConversationId r \<noteq> ''task-'' @ rest'"
  then have "\<not> startsWith (useConversationId r) ''task-''"
    by (simp add: startsWith_iff)
  then show "taskId (returned (useTaskPolling st r)) = None"
    by (simp add: returned_taskId)
qed

theorem taskId_is_remainder_witness:
  "taskId (returned (useTaskPolling mount (example_render ''task-ab-task-7'' None 0)))
     = Some ''ab-task-7''
   \<and> taskId (returned (useTaskPolling mount (example_render ''ab-task-7'' None 0))) = None"
  using taskId_is_remainder [of "example_render ''task-ab-task-7'' None 0" "''ab-task-7''" mount]
    taskId_is_remainder [of "example_render ''ab-task-7'' None 0" "[]" mount]
  by (simp add: example_render_def)

text \<open>
  Claim C9. Of the returned \<open>taskId\<close> and \<open>conversationId\<close> exactly one is non-null. With
  the task prefix, \<open>taskId\<close> is the text after the prefix and \<open>conversationId\<close> is null;
  without it, \<open>taskId\<close> is null and \<open>conversationId\<close> is the route parameter unchanged.
\<close>

theorem taskId_xor_conversationId:
  "(taskId (returned (useTaskPolling st r)) = None)
      \<noteq> (conversationId (returned (useTaskPolling st r)) = None)
   \<and> (useConversationId r = ''task-'' @ rest \<longrightarrow>
        taskId (returned (useTaskPolling st r)) = Some rest
        \<and> conversationId (returned (useTaskPolling st r)) = None)
   \<and> ((\<forall>rest'. useConversationId r \<noteq> ''task-'' @ rest') \<longrightarrow>
        taskId (returned (useTaskPolling st r)) = None
        \<and> conversationId (returned (useTaskPolling st r)) = Some (useConversationId r))"
proof (intro conjI impI)
  show "(taskId (returned (useTaskPolling st r)) = None)
      \<noteq> (conversationId (returned (useTaskPolling st r)) = None)"
    by (simp add: returned_taskId returned_conversationId)
next
  assume a: "useConversationId r = ''task-'' @ rest"
  then have s: "startsWith (useConversationId r) ''task-''"
    by (simp add: startsWith_iff)
  show "taskId (returned (useTaskPolling st r)) = Some rest"
    using a s replace_prefix [of "''task-''" rest "[]"] by (simp add: returned_taskId)
  show "conversationId (returned (useTaskPolling st r)) = None"
    using s by (simp add: returned_conversationId)
next
  assume "\<forall>rest'. useConversationId r \<noteq> ''task-'' @ rest'"
  then have s: "\<not> startsWith (useConversationId r) ''task-''"
    by (simp add: startsWith_iff)
  show "taskId (returned (useTaskPolling st r)) = None"
    using s by (simp add: returned_taskId)
  show "conversationId (returned (useTaskPolling st r)) = Some (useConversationId r)"
    using s by (simp add: returned_conversationId)
qed

theorem taskId_xor_conversationId_witness:
  "taskId (returned (useTaskPolling mount (example_render ''task-42'' None 0))) = Some ''42''
   \<and> conversationId (returned (useTaskPolling mount (example_render ''task-42'' None 0))) = None
   \<and> taskId (returned (useTaskPolling mount (example_render ''c0ffee'' None 0))) = None
   \<and> conversationId (returned (useTaskPolling mount (example_render ''c0ffee'' None 0)))
       = Some ''c0ffee''"
  using taskId_xor_conversationId [of mount "example_render ''task-42'' None 0" "''42''"]
    taskId_xor_conversationId [of mount "example_render ''c0ffee'' None 0" "[]"]
  by (simp add: example_render_def)


section \<open>Polling\<close>

text \<open>
  Claim C1. For a task that is present, the refetch interval handed to the query is
  \<^verbatim>\<open>false\<close> (polling stops) exactly when its status is \<^verbatim>\<open>READY\<close> or
  \<^verbatim>\<open>ERROR\<close>; for every other status it is 3000 milliseconds (polling goes on).
\<close>

theorem polling_stops_at_terminal_status:
  "(refetchInterval' (taskQuery_options tid) (Some t) = NoRefetch)
      = (status t = ''READY'' \<or> status t = ''ERROR'')
   \<and> (status t \<noteq> ''READY'' \<and> status t \<noteq> ''ERROR'' \<longrightarrow>
        refetchInterval' (taskQuery_options tid) (Some t) = RefetchEvery 3000)"
  by (simp add: taskQuery_options_def refetchInterval_def)

theorem polling_stops_at_terminal_status_witness:
  "refetchInterval' (taskQuery_options (Some ''42''))
       (Some (example_task ''WORKING'' None None)) = RefetchEvery 3000
   \<and> refetchInterval' (taskQuery_options (Some ''42''))
       (Some (example_task ''READY'' (Some ''c1'') None)) = NoRefetch
   \<and> refetchInterval' (taskQuery_options (Some ''42''))
       (Some (example_task ''ERROR'' None None)) = NoRefetch"
  using polling_stops_at_terminal_status [of "Some ''42''" "example_task ''WORKING'' None None"]
    polling_stops_at_terminal_status [of "Some ''42''" "example_task ''READY'' (Some ''c1'') None"]
    polling_stops_at_terminal_status [of "Some ''42''" "example_task ''ERROR'' None None"]
  by (simp add: example_task_def)


section \<open>The transport selector\<close>

text \<open>
  Claim C3. For every version other than 0 and 1 the component throws the
  unsupported-version error, whatever its collaborators returned, and so renders no
  provider at all.
\<close>

theorem unsupported_version_throws:
  "version \<noteq> 0 \<and> version \<noteq> 1 \<longrightarrow>
     WebSocketProviderWrapper conv subs cid version = Inl (UnsupportedVersion version)
     \<and> (\<forall>el. WebSocketProviderWrapper conv subs cid version \<noteq> Inr el)"
  by (simp add: WebSocketProviderWrapper_def)

theorem unsupported_version_throws_witness:
  "WebSocketProviderWrapper (Some (example_conversation (Some ''http://localhost:3000'')))
      (Some [Some (example_sub ''c1'' None)]) ''c1'' 2 = Inl (UnsupportedVersion 2)
   \<and> WebSocketProviderWrapper None None ''c1'' (- 1) = Inl (UnsupportedVersion (- 1))"
  using unsupported_version_throws
      [of 2 "Some (example_conversation (Some ''http://localhost:3000''))"
          "Some [Some (example_sub ''c1'' None)]" "''c1''"]
    unsupported_version_throws [of "- 1" None None "''c1''"]
  by simp

text \<open>
  Claim C7. The claim says the computation of the URL does not fail when both the matching
  sub-conversation's \<open>conversation_url\<close> and the conversation's \<open>url\<close> are absent. The
  code reads both with \<^verbatim>\<open>?.\<close> and then calls \<^verbatim>\<open>.replace\<close> on the result
  unguarded: with no conversation loaded, and with a conversation and a matching
  sub-conversation that both lack a URL, version 1 throws a \<^verbatim>\<open>TypeError\<close>.
\<close>

theorem url_computation_throws_without_url:
  "WebSocketProviderWrapper None None ''c1'' 1 = Inl TypeError
   \<and> WebSocketProviderWrapper (Some (example_conversation None))
        (Some [None, Some (example_sub ''c1'' None)]) ''c1'' 1 = Inl TypeError"
  by (simp add: WebSocketProviderWrapper_def v1ConversationUrl_def js_or_def truthy_def
      example_conversation_def example_sub_def)

text \<open>
  Claim C8. For version 1, when the resolved conversation URL is a string \<open>u\<close>, the
  component renders the live-transport provider, and the URL it passes is \<open>u\<close> with the
  first occurrence of \<^verbatim>\<open>localhost\<close> replaced by \<^verbatim>\<open>sheepintry.com\<close> (the text
  before and after that occurrence kept); a URL in which \<^verbatim>\<open>localhost\<close> does not
  occur is passed unchanged.
\<close>

theorem connection_url_host_substitution:
  assumes "v1ConversationUrl conv subs cid = Some u"
  shows "\<exists>props. WebSocketProviderWrapper conv subs cid 1 = Inr (ConversationWebSocketProvider props)
     \<and> (\<forall>pre post.
          u = pre @ ''localhost'' @ post
          \<and> (\<forall>pre' post'. u = pre' @ ''localhost'' @ post' \<longrightarrow> length pre \<le> length pre')
          \<longrightarrow> conversationUrl props = pre @ ''sheepintry.com'' @ post)
     \<and> ((\<forall>pre post. u \<noteq> pre @ ''localhost'' @ post) \<longrightarrow> conversationUrl props = u)"
proof -
  let ?props = "\<lparr> conversationId' = cid,
                 conversationUrl = replace u ''localhost'' ''sheepintry.com'',
                 sessionApiKey = v1SessionApiKey conv subs cid,
                 subConversationIds =
                   (case conv of None \<Rightarrow> None | Some c \<Rightarrow> sub_conversation_ids c),
                 subConversations = map_option (List.map_filter (\<lambda>sc. sc)) subs \<rparr>"
  have "WebSocketProviderWrapper conv subs cid 1 = Inr (ConversationWebSocketProvider ?props)"
    using assms by (simp add: WebSocketProviderWrapper_def)
  moreover have "\<forall>pre post.
          u = pre @ ''localhost'' @ post
          \<and> (\<forall>pre' post'. u = pre' @ ''localhost'' @ post' \<longrightarrow> length pre \<le> length pre')
          \<longrightarrow> conversationUrl ?props = pre @ ''sheepintry.com'' @ post"
    using replace_first [of u _ "''localhost''" _ "''sheepintry.com''"] by simp
  moreover have "(\<forall>pre post. u \<noteq> pre @ ''localhost'' @ post) \<longrightarrow> conversationUrl ?props = u"
    using replace_absent [of u "''localhost''" "''sheepintry.com''"] by simp
  ultimately show ?thesis by blast
qed

theorem connection_url_host_substitution_witness:
  "(\<exists>props.
      WebSocketProviderWrapper
        (Some (example_conversation (Some ''http://localhost:3000/localhost'')))
        (Some [None, Some (example_sub ''c1'' None)]) ''c1'' 1
        = Inr (ConversationWebSocketProvider props)
      \<and> conversationUrl props = ''http://sheepintry.com:3000/localhost'')
   \<and> (\<exists>props.
      WebSocketProviderWrapper
        (Some (example_conversation (Some ''http://localhost:3000/localhost'')))
        (Some [None, Some (example_sub ''c1'' (Some ''wss://agent.example.org/c1''))]) ''c1'' 1
        = Inr (ConversationWebSocketProvider props)
      \<and> conversationUrl props = ''wss://agent.example.org/c1'')"
proof (intro conjI)
  let ?conv = "Some (example_conversation (Some ''http://localhost:3000/localhost''))"
  let ?subs = "Some [None, Some (example_sub ''c1'' None)]"
  let ?u = "''http://localhost:3000/localhost''"
  have u: "v1ConversationUrl ?conv ?subs ''c1'' = Some ?u"
    by (simp add: v1ConversationUrl_def js_or_def truthy_def example_conversation_def
        example_sub_def)
  have i: "indexOf ?u ''localhost'' = Some (length ''http://'')"
    by (simp add: startsWith_def)
  have first: "\<forall>pre' post'. ?u = pre' @ ''localhost'' @ post' \<longrightarrow> length ''http://'' \<le> length pre'"
  proof (intro allI impI)
    fix pre' post'
    assume "?u = pre' @ ''localhost'' @ post'"
    then show "length ''http://'' \<le> length pre'"
      by (rule indexOf_least [OF i])
  qed
  have split: "?u = ''http://'' @ ''localhost'' @ '':3000/localhost''"
    by simp
  from connection_url_host_substitution [OF u] obtain props
    where w: "WebSocketProviderWrapper ?conv ?subs ''c1'' 1 = Inr (ConversationWebSocketProvider props)"
      and r: "\<forall>pre post.
          ?u = pre @ ''localhost'' @ post
          \<and> (\<forall>pre' post'. ?u = pre' @ ''localhost'' @ post' \<longrightarrow> length pre \<le> length pre')
          \<longrightarrow> conversationUrl props = pre @ ''sheepintry.com'' @ post"
    by blast
  from r have "?u = ''http://'' @ ''localhost'' @ '':3000/localhost''
          \<and> (\<forall>pre' post'. ?u = pre' @ ''localhost'' @ post' \<longrightarrow> length ''http://'' \<le> length pre')
          \<longrightarrow> conversationUrl props = ''http://'' @ ''sheepintry.com'' @ '':3000/localhost''"
    by (rule allE) (erule allE)
  with split first have "conversationUrl props = ''http://'' @ ''sheepintry.com'' @ '':3000/localhost''"
    by (rule_tac mp) (assumption, rule conjI)
  then have "conversationUrl props = ''http://sheepintry.com:3000/localhost''"
    by simp
  with w show "\<exists>props.
      WebSocketProviderWrapper ?conv ?subs ''c1'' 1 = Inr (ConversationWebSocketProvider props)
      \<and> conversationUrl props = ''http://sheepintry.com:3000/localhost''"
    by (intro exI conjI)
next
  let ?conv = "Some (example_conversation (Some ''http://localhost:3000/localhost''))"
  let ?subs = "Some [None, Some (example_sub ''c1'' (Some ''wss://agent.example.org/c1''))]"
  let ?u = "''wss://agent.example.org/c1''"
  have u: "v1ConversationUrl ?conv ?subs ''c1'' = Some ?u"
    by (simp add: v1ConversationUrl_def js_or_def truthy_def example_conversation_def
        example_sub_def)
  have i: "indexOf ?u ''localhost'' = None"
    by (simp add: startsWith_def)
  have absent: "\<forall>pre post. ?u \<noteq> pre @ ''localhost'' @ post"
    by (intro allI) (rule indexOf_None_absent [OF i])
  from connection_url_host_substitution [OF u] obtain props
    where w: "WebSocketProviderWrapper ?conv ?subs ''c1'' 1 = Inr (ConversationWebSocketProvider props)"
      and r: "(\<forall>pre post. ?u \<noteq> pre @ ''localhost'' @ post) \<longrightarrow> conversationUrl props = ?u"
    by blast
  from r absent have "conversationUrl props = ?u"
    by (rule mp)
  with w show "\<exists>props.
      WebSocketProviderWrapper ?conv ?subs ''c1'' 1 = Inr (ConversationWebSocketProvider props)
      \<and> conversationUrl props = ?u"
    by (intro exI conjI)
qed


section \<open>Renders and their side effects\<close>

lemma effects_render:
  "effects (useTaskPolling st r) =
     useEffect (precache_deps st) (data_dep r, useQueryClient r)
       (preCacheEffect (data (useQuery r)))
     @ useEffect (navigate_deps st) (data_dep r, useNavigate r)
         (navigateEffect (data (useQuery r)))"
  by (simp add: useTaskPolling_def Let_def)

lemma next_state_render:
  "next_state (useTaskPolling st r) =
     \<lparr> precache_deps = Some (data_dep r, useQueryClient r),
       navigate_deps = Some (data_dep r, useNavigate r) \<rparr>"
  by (simp add: useTaskPolling_def Let_def)

lemma queried_render:
  "queried (useTaskPolling st r) = taskQuery_options (taskId (returned (useTaskPolling st r)))"
  by (simp add: useTaskPolling_def Let_def)

lemma returned_taskError: "taskError (returned (useTaskPolling st r)) = error (useQuery r)"
  by (simp add: useTaskPolling_def Let_def)


lemma not_ready_preCacheEffect:
  "\<not> ready_with_conversation r \<Longrightarrow> preCacheEffect (data (useQuery r)) = []"
  by (auto simp: ready_with_conversation_def preCacheEffect_def truthy_def split: option.splits)

lemma ready_navigateEffect:
  "data (useQuery r) = Some t \<Longrightarrow> status t = ''READY'' \<Longrightarrow> app_conversation_id t = Some cid
     \<Longrightarrow> cid \<noteq> [] \<Longrightarrow> navigateEffect (data (useQuery r)) = [Navigate (''/conversations/'' @ cid) True]"
  by (simp add: navigateEffect_def)

lemma ready_preCacheEffect:
  "data (useQuery r) = Some t \<Longrightarrow> status t = ''READY'' \<Longrightarrow> app_conversation_id t = Some cid
     \<Longrightarrow> cid \<noteq> [] \<Longrightarrow> agent_server_url t = Some u \<Longrightarrow> u \<noteq> []
     \<Longrightarrow> preCacheEffect (data (useQuery r)) =
           [SetQueryData (SubConversationsKey [cid])
              [\<lparr> id' = cid, conversation_url = Some u, session_api_key = None,
                 sandbox_id' = sandbox_id t \<rparr>]]"
  by (simp add: preCacheEffect_def truthy_def)

lemma navigations_preCacheEffect: "navigations (preCacheEffect d) = []"
  by (simp add: navigations_def preCacheEffect_def split: option.splits)

lemma navigations_navigateEffect: "navigations (navigateEffect d) = navigateEffect d"
  by (simp add: navigations_def navigateEffect_def split: option.splits)

lemma cache_writes_preCacheEffect: "cache_writes (preCacheEffect d) = preCacheEffect d"
  by (simp add: cache_writes_def preCacheEffect_def split: option.splits)

lemma cache_writes_navigateEffect: "cache_writes (navigateEffect d) = []"
  by (simp add: cache_writes_def navigateEffect_def split: option.splits)

lemma navigations_render:
  "navigations (effects (useTaskPolling st r)) =
     useEffect (navigate_deps st) (data_dep r, useNavigate r) (navigateEffect (data (useQuery r)))"
  using navigations_preCacheEffect [of "data (useQuery r)"]
    navigations_navigateEffect [of "data (useQuery r)"]
  by (simp add: effects_render useEffect_def navigations_def)

lemma cache_writes_render:
  "cache_writes (effects (useTaskPolling st r)) =
     useEffect (precache_deps st) (data_dep r, useQueryClient r)
       (preCacheEffect (data (useQuery r)))"
  using cache_writes_preCacheEffect [of "data (useQuery r)"]
    cache_writes_navigateEffect [of "data (useQuery r)"]
  by (simp add: effects_render useEffect_def cache_writes_def)

lemma navigations_append: "navigations (xs @ ys) = navigations xs @ navigations ys"
  by (simp add: navigations_def)

lemma state_after_snoc:
  "state_after st (rs @ [r]) = next_state (useTaskPolling (state_after st rs) r)"
  by (induction rs arbitrary: st) simp_all

lemma state_after_take:
  assumes "0 < i" and "i \<le> length rs"
  shows "state_after st (take i rs) =
           \<lparr> precache_deps = Some (data_dep (rs ! (i - 1)), useQueryClient (rs ! (i - 1))),
             navigate_deps = Some (data_dep (rs ! (i - 1)), useNavigate (rs ! (i - 1))) \<rparr>"
proof -
  from assms obtain j where j: "i = Suc j" and lt: "j < length rs"
    by (cases i) auto
  have "take i rs = take j rs @ [rs ! j]"
    using lt j by (simp add: take_Suc_conv_app_nth)
  then show ?thesis
    using j by (simp add: state_after_snoc next_state_render)
qed






lemma navigations_effects_at:
  assumes "i < length rs"
  shows "navigations (effects_at rs i) =
     (if i = 0 \<or> data_dep (rs ! (i - 1)) \<noteq> data_dep (rs ! i)
         \<or> useNavigate (rs ! (i - 1)) \<noteq> useNavigate (rs ! i)
      then navigateEffect (data (useQuery (rs ! i))) else [])"
proof (cases "i = 0")
  case True
  then show ?thesis
    by (simp add: effects_at_def navigations_render useEffect_def mount_def)
next
  case False
  then have "state_after mount (take i rs) =
           \<lparr> precache_deps = Some (data_dep (rs ! (i - 1)), useQueryClient (rs ! (i - 1))),
             navigate_deps = Some (data_dep (rs ! (i - 1)), useNavigate (rs ! (i - 1))) \<rparr>"
    using assms by (intro state_after_take) simp_all
  then show ?thesis
    using False by (auto simp: effects_at_def navigations_render useEffect_def)
qed

lemma cache_writes_effects_at:
  assumes "i < length rs"
  shows "cache_writes (effects_at rs i) =
     (if i = 0 \<or> data_dep (rs ! (i - 1)) \<noteq> data_dep (rs ! i)
         \<or> useQueryClient (rs ! (i - 1)) \<noteq> useQueryClient (rs ! i)
      then preCacheEffect (data (useQuery (rs ! i))) else [])"
proof (cases "i = 0")
  case True
  then show ?thesis
    by (simp add: effects_at_def cache_writes_render useEffect_def mount_def)
next
  case False
  then have "state_after mount (take i rs) =
           \<lparr> precache_deps = Some (data_dep (rs ! (i - 1)), useQueryClient (rs ! (i - 1))),
             navigate_deps = Some (data_dep (rs ! (i - 1)), useNavigate (rs ! (i - 1))) \<rparr>"
    using assms by (intro state_after_take) simp_all
  then show ?thesis
    using False by (auto simp: effects_at_def cache_writes_render useEffect_def)
qed

lemma effects_at_data_changed:
  assumes "i < length rs" and "i = 0 \<or> data_dep (rs ! (i - 1)) \<noteq> data_dep (rs ! i)"
  shows "effects_at rs i =
     preCacheEffect (data (useQuery (rs ! i))) @ navigateEffect (data (useQuery (rs ! i)))"
proof (cases "i = 0")
  case True
  then show ?thesis
    by (simp add: effects_at_def effects_render useEffect_def mount_def)
next
  case False
  then have "state_after mount (take i rs) =
           \<lparr> precache_deps = Some (data_dep (rs ! (i - 1)), useQueryClient (rs ! (i - 1))),
             navigate_deps = Some (data_dep (rs ! (i - 1)), useNavigate (rs ! (i - 1))) \<rparr>"
    using assms(1) by (intro state_after_take) simp_all
  then show ?thesis
    using False assms(2) by (simp add: effects_at_def effects_render useEffect_def)
qed





text \<open>
  Claim C6 as stated does not hold. A ready task with a conversation identifier and no
  \<open>agent_server_url\<close> triggers the navigation and no cache write. And with both present,
  the two effects have different dependency arrays: in the last run the first render
  performs both, the second (navigate replaced) only the navigation, the third (query
  client replaced) only the cache write.
\<close>

theorem cache_write_without_navigation_condition_counterexample:
  "preCacheEffect (Some (example_task ''READY'' (Some ''c1'') None)) = []
   \<and> navigateEffect (Some (example_task ''READY'' (Some ''c1'') None))
       = [Navigate ''/conversations/c1'' True]
   \<and> effects (useTaskPolling mount
        (example_render ''task-42'' (Some (example_task ''READY'' (Some ''c1'') None)) 1))
       = [Navigate ''/conversations/c1'' True]
   \<and> renders mount
        [example_render ''task-42'' (Some example_ready_task) 2,
         (example_render ''task-42'' (Some example_ready_task) 2) \<lparr> useNavigate := 1 \<rparr>,
         (example_render ''task-42'' (Some example_ready_task) 2)
           \<lparr> useNavigate := 1, useQueryClient := 1 \<rparr>]
       = [SetQueryData (SubConversationsKey [''c1''])
            [\<lparr> id' = ''c1'', conversation_url = Some ''http://localhost:8000'',
               session_api_key = None, sandbox_id' = Some ''sb1'' \<rparr>],
          Navigate ''/conversations/c1'' True,
          Navigate ''/conversations/c1'' True,
          SetQueryData (SubConversationsKey [''c1''])
            [\<lparr> id' = ''c1'', conversation_url = Some ''http://localhost:8000'',
               session_api_key = None, sandbox_id' = Some ''sb1'' \<rparr>]]"
  by (simp add: preCacheEffect_def navigateEffect_def example_task_def example_render_def
      example_ready_task_def truthy_def effects_render next_state_render useEffect_def
      mount_def data_dep_def)

text \<open>
  Claim C6, amended. After a render in which the data object changed identity, or the
  first render (the render of a status transition), the cache write fires exactly when
  the navigation fires and \<open>agent_server_url\<close> is present (non-empty), and each fires at
  most once; for a ready task with a conversation identifier and an \<open>agent_server_url\<close>
  the side effects of that render are exactly one cache write followed by one navigation.
\<close>

theorem cache_write_accompanies_navigation:
  assumes "i < length rs"
    and "i = 0 \<or> data_dep (rs ! (i - 1)) \<noteq> data_dep (rs ! i)"
  shows "(cache_writes (effects_at rs i) \<noteq> [])
        = (navigations (effects_at rs i) \<noteq> []
           \<and> (\<exists>t. data (useQuery (rs ! i)) = Some t \<and> truthy (agent_server_url t)))
     \<and> (data (useQuery (rs ! i)) = Some t \<and> status t = ''READY''
          \<and> app_conversation_id t = Some cid \<and> cid \<noteq> []
          \<and> agent_server_url t = Some u \<and> u \<noteq> [] \<longrightarrow>
            effects_at rs i =
              [SetQueryData (SubConversationsKey [cid])
                 [\<lparr> id' = cid, conversation_url = Some u, session_api_key = None,
                    sandbox_id' = sandbox_id t \<rparr>],
               Navigate (''/conversations/'' @ cid) True])
     \<and> length (cache_writes (effects_at rs i)) \<le> 1
     \<and> length (navigations (effects_at rs i)) \<le> 1"
proof -
  let ?d = "data (useQuery (rs ! i))"
  have eff: "effects_at rs i = preCacheEffect ?d @ navigateEffect ?d"
    using assms by (rule effects_at_data_changed)
  have cw: "cache_writes (effects_at rs i) = preCacheEffect ?d"
    using assms by (auto simp: cache_writes_effects_at)
  have nv: "navigations (effects_at rs i) = navigateEffect ?d"
    using assms by (auto simp: navigations_effects_at)
  have iff: "(preCacheEffect ?d \<noteq> [])
      = (navigateEffect ?d \<noteq> [] \<and> (\<exists>t. ?d = Some t \<and> truthy (agent_server_url t)))"
    by (auto simp: preCacheEffect_def navigateEffect_def split: option.splits)
  have both: "effects_at rs i =
              [SetQueryData (SubConversationsKey [cid])
                 [\<lparr> id' = cid, conversation_url = Some u, session_api_key = None,
                    sandbox_id' = sandbox_id t \<rparr>],
               Navigate (''/conversations/'' @ cid) True]"
    if a: "?d = Some t \<and> status t = ''READY''
          \<and> app_conversation_id t = Some cid \<and> cid \<noteq> []
          \<and> agent_server_url t = Some u \<and> u \<noteq> []"
  proof -
    from a have t: "?d = Some t" "status t = ''READY''" "app_conversation_id t = Some cid"
      "cid \<noteq> []" "agent_server_url t = Some u" "u \<noteq> []"
      by blast+
    have "preCacheEffect ?d =
      [SetQueryData (SubConversationsKey [cid])
         [\<lparr> id' = cid, conversation_url = Some u, session_api_key = None,
            sandbox_id' = sandbox_id t \<rparr>]]"
      using t by (rule ready_preCacheEffect)
    moreover have "navigateEffect ?d = [Navigate (''/conversations/'' @ cid) True]"
      using t(1-4) by (rule ready_navigateEffect)
    ultimately show ?thesis by (simp add: eff)
  qed
  have l1: "length (preCacheEffect ?d) \<le> 1"
    by (simp add: preCacheEffect_def split: option.splits)
  have l2: "length (navigateEffect ?d) \<le> 1"
    by (simp add: navigateEffect_def split: option.splits)
  show ?thesis
    using iff both l1 l2 unfolding cw nv by blast
qed

theorem cache_write_accompanies_navigation_witness:
  "effects_at example_run 2
     = [SetQueryData (SubConversationsKey [''c1''])
          [\<lparr> id' = ''c1'', conversation_url = Some ''http://localhost:8000'',
             session_api_key = None, sandbox_id' = Some ''sb1'' \<rparr>],
        Navigate ''/conversations/c1'' True]
   \<and> cache_writes (effects_at example_run 1) = []"
proof -
  have len: "length example_run = 5"
    by (simp add: example_run_def)
  have n0: "example_run ! 0 = example_render ''task-42'' None 0"
    and n1: "example_run ! Suc 0 = example_render ''task-42'' (Some (example_task ''WORKING'' None None)) 1"
    and n2: "example_run ! 2 = example_render ''task-42'' (Some example_ready_task) 2"
    by (simp_all add: example_run_def)
  have "effects_at example_run 2
     = [SetQueryData (SubConversationsKey [''c1''])
          [\<lparr> id' = ''c1'', conversation_url = Some ''http://localhost:8000'',
             session_api_key = None, sandbox_id' = Some ''sb1'' \<rparr>],
        Navigate ''/conversations/c1'' True]"
    using cache_write_accompanies_navigation
      [of 2 example_run example_ready_task "''c1''" "''http://localhost:8000''"]
    by (simp add: len n1 n2 example_render_def example_task_def example_ready_task_def
        data_dep_def)
  moreover have "cache_writes (effects_at example_run 1) = []"
    using cache_write_accompanies_navigation
      [of 1 example_run example_ready_task "''c1''" "''http://localhost:8000''"]
    by (simp add: len n0 n1 example_render_def example_task_def data_dep_def truthy_def)
  ultimately show ?thesis by simp
qed

lemma SetQueryData_in_effects:
  "SetQueryData k recs \<in> set (effects (useTaskPolling st r))
     \<Longrightarrow> SetQueryData k recs \<in> set (preCacheEffect (data (useQuery r)))"
  by (auto simp: effects_render useEffect_def navigateEffect_def split: if_splits option.splits)

text \<open>
  Claim C10. Whatever the pre-cache effect writes in a render is a single record for a
  ready task, with \<open>id\<close> the task's \<open>app_conversation_id\<close>, \<open>conversation_url\<close> the task's
  \<open>agent_server_url\<close>, \<open>session_api_key\<close> null and \<open>sandbox_id\<close> the task's \<open>sandbox_id\<close>,
  and the task's \<open>agent_server_url\<close> is present; a task without it writes nothing.
\<close>

theorem precache_record_fields:
  "(SetQueryData k recs \<in> set (effects (useTaskPolling st r)) \<longrightarrow>
      (\<exists>t cid. data (useQuery r) = Some t \<and> status t = ''READY''
         \<and> app_conversation_id t = Some cid \<and> truthy (agent_server_url t)
         \<and> k = SubConversationsKey [cid]
         \<and> recs = [\<lparr> id' = cid, conversation_url = agent_server_url t,
                      session_api_key = None, sandbox_id' = sandbox_id t \<rparr>]))
   \<and> (data (useQuery r) = Some t' \<and> \<not> truthy (agent_server_url t') \<longrightarrow>
        cache_writes (effects (useTaskPolling st r)) = [])"
proof (intro conjI impI)
  assume "SetQueryData k recs \<in> set (effects (useTaskPolling st r))"
  then have "SetQueryData k recs \<in> set (preCacheEffect (data (useQuery r)))"
    by (rule SetQueryData_in_effects)
  then have mem: "SetQueryData k recs \<in> set (preCacheEffect (data (useQuery r)))" .
  obtain t where d: "data (useQuery r) = Some t"
    using mem by (cases "data (useQuery r)") (simp_all add: preCacheEffect_def)
  obtain cid where c: "app_conversation_id t = Some cid"
    using mem d by (cases "app_conversation_id t") (simp_all add: preCacheEffect_def)
  from mem d c have "status t = ''READY'' \<and> truthy (agent_server_url t)
         \<and> k = SubConversationsKey [cid]
         \<and> recs = [\<lparr> id' = cid, conversation_url = agent_server_url t,
                      session_api_key = None, sandbox_id' = sandbox_id t \<rparr>]"
    by (simp add: preCacheEffect_def split: if_splits)
  with d c show "\<exists>t cid. data (useQuery r) = Some t \<and> status t = ''READY''
         \<and> app_conversation_id t = Some cid \<and> truthy (agent_server_url t)
         \<and> k = SubConversationsKey [cid]
         \<and> recs = [\<lparr> id' = cid, conversation_url = agent_server_url t,
                      session_api_key = None, sandbox_id' = sandbox_id t \<rparr>]"
    by blast
next
  assume "data (useQuery r) = Some t' \<and> \<not> truthy (agent_server_url t')"
  then have "preCacheEffect (data (useQuery r)) = []"
    by (simp add: preCacheEffect_def split: option.splits)
  then show "cache_writes (effects (useTaskPolling st r)) = []"
    by (simp add: cache_writes_render useEffect_def)
qed

theorem precache_record_fields_witness:
  "SetQueryData (SubConversationsKey [''c1''])
      [\<lparr> id' = ''c1'', conversation_url = Some ''http://localhost:8000'',
         session_api_key = None, sandbox_id' = Some ''sb1'' \<rparr>]
     \<in> set (effects (useTaskPolling mount
          (example_render ''task-42''
             (Some (example_task ''READY'' (Some ''c1'') (Some ''http://localhost:8000''))) 1)))
   \<and> cache_writes (effects (useTaskPolling mount
          (example_render ''task-42'' (Some (example_task ''READY'' (Some ''c1'') None)) 1))) = []"
  using precache_record_fields
    [of "SubConversationsKey [''c1'']"
        "[\<lparr> id' = ''c1'', conversation_url = Some ''http://localhost:8000'',
            session_api_key = None, sandbox_id' = Some ''sb1'' \<rparr>]"
        mount
        "example_render ''task-42''
           (Some (example_task ''READY'' (Some ''c1'') (Some ''http://localhost:8000''))) 1"
        "example_task ''READY'' (Some ''c1'') (Some ''http://localhost:8000'')"]
    precache_record_fields
    [of "SubConversationsKey [''c1'']" "[]" mount
        "example_render ''task-42'' (Some (example_task ''READY'' (Some ''c1'') None)) 1"
        "example_task ''READY'' (Some ''c1'') None"]
  by (simp add: effects_render useEffect_def mount_def example_render_def example_task_def
      preCacheEffect_def navigateEffect_def truthy_def data_dep_def)


section \<open>Fetch failures\<close>

lemma polls_never_retry:
  assumes "retry opts = RetryNever"
  shows "k < length (polls opts q n gs) \<Longrightarrow>
     (\<forall>e. polls opts q n gs ! k \<noteq> Retried e)
     \<and> (\<forall>e. queryFn' opts (gs ! k) = Inl e \<longrightarrow>
          (\<exists>d. polls opts q n gs ! k = Settled \<lparr> data = d, error = Some e, isLoading = False \<rparr>))"
proof (induction gs arbitrary: q n k)
  case Nil
  then show ?case by simp
next
  case (Cons g gs)
  show ?case
  proof (cases k)
    case 0
    then show ?thesis
      using assms by (cases "queryFn' opts g") simp_all
  next
    case (Suc j)
    show ?thesis
    proof (cases "queryFn' opts g")
      case (Inl e)
      let ?q = "\<lparr> data = data q, error = Some e, isLoading = False \<rparr>"
      have "j < length (polls opts ?q 0 gs)"
        using Cons.prems Suc Inl assms by (simp split: if_splits)
      from Cons.IH [OF this] show ?thesis
        using Cons.prems Suc Inl assms by (simp split: if_splits)
    next
      case (Inr v)
      let ?q = "\<lparr> data = v, error = None, isLoading = False \<rparr>"
      have "j < length (polls opts ?q 0 gs)"
        using Cons.prems Suc Inr by (simp split: if_splits)
      from Cons.IH [OF this] show ?thesis
        using Cons.prems Suc Inr by (simp split: if_splits)
    qed
  qed
qed

lemma queried_task:
  assumes "taskId (returned (useTaskPolling st r)) = Some tid" and "tid \<noteq> []"
  shows "retry (queried (useTaskPolling st r)) = RetryNever"
    and "enabled (queried (useTaskPolling st r))"
    and "queryFn' (queried (useTaskPolling st r)) g = g tid"
  using assms by (simp_all add: queried_render taskQuery_options_def truthy_def queryFn_def)

text \<open>
  Claim C5. On a task route with a non-empty task identifier the query has retries
  disabled, and in any run of the query against the backend no call of the query function
  is a retry: call \<open>k\<close> leaves event \<open>k\<close>, and when \<^verbatim>\<open>getStartTask\<close> fails at call \<open>k\<close>
  with \<open>e\<close>, be it the first fetch or a later poll, that event is the settled query with
  error \<open>e\<close>. A render that receives such a result returns \<open>e\<close> as \<open>taskError\<close>. (After a
  failed later poll the data kept may still ask for the next poll; that is the refetch
  interval of claim C1, not a retry.)
\<close>

theorem fetch_failure_surfaced_without_retry:
  assumes "taskId (returned (useTaskPolling st r)) = Some tid" and "tid \<noteq> []"
    and "k < length (run_query (queried (useTaskPolling st r)) gs)"
  shows "retry (queried (useTaskPolling st r)) = RetryNever
     \<and> (\<forall>e'. run_query (queried (useTaskPolling st r)) gs ! k \<noteq> Retried e')
     \<and> ((gs ! k) tid = Inl e \<longrightarrow>
          (\<exists>d. run_query (queried (useTaskPolling st r)) gs ! k
                  = Settled \<lparr> data = d, error = Some e, isLoading = False \<rparr>))
     \<and> (useQuery r' = \<lparr> data = d', error = Some e, isLoading = False \<rparr> \<longrightarrow>
          taskError (returned (useTaskPolling st' r')) = Some e)"
proof -
  let ?opts = "queried (useTaskPolling st r)"
  let ?q0 = "\<lparr> data = None, error = None, isLoading = True \<rparr>"
  note o = queried_task [OF assms(1,2)]
  have run: "run_query ?opts gs = polls ?opts ?q0 0 gs"
    using o(2) by (simp add: run_query_def)
  have k: "k < length (polls ?opts ?q0 0 gs)"
    using assms(3) by (simp only: run)
  from polls_never_retry [OF o(1) k]
  have "(\<forall>e'. run_query ?opts gs ! k \<noteq> Retried e')"
    and "(gs ! k) tid = Inl e \<longrightarrow>
          (\<exists>d. run_query ?opts gs ! k = Settled \<lparr> data = d, error = Some e, isLoading = False \<rparr>)"
    by (simp_all only: run o(3)) blast+
  moreover have "useQuery r' = \<lparr> data = d', error = Some e, isLoading = False \<rparr> \<longrightarrow>
          taskError (returned (useTaskPolling st' r')) = Some e"
    by (simp add: returned_taskError)
  ultimately show ?thesis
    using o(1) by blast
qed

theorem fetch_failure_surfaced_without_retry_witness:
  "run_query (queried (useTaskPolling mount (example_render ''task-42'' None 0))) example_calls
     = [Settled \<lparr> data = Some (example_task ''WORKING'' None None), error = None,
                  isLoading = False \<rparr>,
        Settled \<lparr> data = Some (example_task ''WORKING'' None None),
                  error = Some (FetchError ''503''), isLoading = False \<rparr>,
        Settled \<lparr> data = Some example_ready_task, error = None, isLoading = False \<rparr>]
   \<and> taskError (returned (useTaskPolling mount
         ((example_render ''task-42'' None 0)
            \<lparr> useQuery := \<lparr> data = Some (example_task ''WORKING'' None None),
                             error = Some (FetchError ''503''), isLoading = False \<rparr> \<rparr>)))
     = Some (FetchError ''503'')"
proof -
  let ?r = "example_render ''task-42'' None 0"
  let ?w = "example_task ''WORKING'' None None"
  have tid: "taskId (returned (useTaskPolling mount ?r)) = Some ''42''"
    by (simp add: returned_taskId startsWith_def replace_def example_render_def)
  have run: "run_query (queried (useTaskPolling mount ?r)) example_calls
     = [Settled \<lparr> data = Some ?w, error = None, isLoading = False \<rparr>,
        Settled \<lparr> data = Some ?w, error = Some (FetchError ''503''), isLoading = False \<rparr>,
        Settled \<lparr> data = Some example_ready_task, error = None, isLoading = False \<rparr>]"
    by (simp add: queried_render tid taskQuery_options_def run_query_def truthy_def
        example_calls_def example_service_def queryFn_def refetchInterval_def
        example_task_def example_ready_task_def)
  have k: "Suc 0 < length (run_query (queried (useTaskPolling mount ?r)) example_calls)"
    by (simp only: run) simp
  have fails: "(example_calls ! Suc 0) ''42'' = Inl (FetchError ''503'')"
    by (simp add: example_calls_def example_service_def)
  from fetch_failure_surfaced_without_retry
    [OF tid _ k, of "FetchError ''503''"
       "(example_render ''task-42'' None 0)
            \<lparr> useQuery := \<lparr> data = Some ?w, error = Some (FetchError ''503''),
                             isLoading = False \<rparr> \<rparr>"
       "Some ?w" mount]
  have "taskError (returned (useTaskPolling mount
         ((example_render ''task-42'' None 0)
            \<lparr> useQuery := \<lparr> data = Some ?w, error = Some (FetchError ''503''),
                             isLoading = False \<rparr> \<rparr>)))
     = Some (FetchError ''503'')"
    by (simp add: example_render_def)
  with run show ?thesis by simp
qed

end
